theory Spec2Isabelle
  imports Main "HOL-Library.AList" "HOL-Library.Sublist"
begin

section \<open>Data model of \<open>moonraker/components/klippy_apis.py\<close>\<close>

text \<open>
  Python values that travel between the component, its callers and Klippy.  A dictionary
  is an association list in insertion order with string keys.  \<open>PSentinel\<close> is the one
  instance of \<open>SentinelClass\<close> (the module constant \<open>SENTINEL\<close>); it differs from
  \<open>PNone\<close>.
\<close>

datatype pyval =
    PNone
  | PSentinel
  | PBool bool
  | PInt int
  | PStr string
  | PList "pyval list"
  | PDict "(string \<times> pyval) list"

text \<open>
  Exceptions.  \<open>ServerError msg status\<close> is \<open>self.server.error\<close>, whose \<open>str\<close> is its
  message; the remaining constructors are exceptions outside that class.
  \<open>NoSpaceError\<close> is the \<open>OSError\<close> with \<open>errno\<close> 28 (no space left on device).
\<close>

datatype exn =
    ServerError string nat
  | IndexError
  | FileNotFoundError
  | FileExistsError
  | IsADirectoryError
  | NotADirectoryError
  | SameFileError
  | NoSpaceError
  | OtherError string

text \<open>
  \<open>Subscription = Dict[str, Optional[List[Any]]]\<close>: an object name is mapped to
  \<open>None\<close> (all fields) or to a list of field names.  Assigning to a key of a Python
  dictionary keeps the position of a present key and appends an absent one, which is
  \<open>AList.update\<close>.
\<close>

type_synonym subscription = "(string \<times> string list option) list"

text \<open>Entries of the file system: a regular file with its bytes, or a directory.\<close>

datatype node = File string | Dir

text \<open>Every call that leaves the component is recorded, in the order it is made.\<close>

datatype action =
    Request string pyval
  | WaitStarted
  | SendEvent string "pyval list"
  | Makedirs string
  | Rmtree string
  | CopyFile string string

record state =
  host_subscription :: subscription
  nodes :: "string \<rightharpoonup> node"
  trace :: "action list"

text \<open>
  The collaborators the component only calls: the Klippy connection (its answer to a
  request may depend on all that happened before), the file manager's metadata index,
  \<open>json.dumps\<close>, the home directory, and \<open>os.statvfs\<close>, which reports
  \<open>(f_frsize, f_bfree)\<close> of the file system that holds the path it is asked about.
\<close>

record env =
  homedir :: string
  klippy_request :: "action list \<Rightarrow> string \<Rightarrow> pyval \<Rightarrow> exn + pyval"
  gcode_metadata :: "string \<rightharpoonup> pyval"
  json_dumps :: "pyval \<Rightarrow> string"
  statvfs :: "string \<Rightarrow> nat \<times> nat"
  dir_size :: nat

type_synonym 'a prog = "state \<Rightarrow> (exn + 'a) \<times> state"

definition bind :: "'a prog \<Rightarrow> ('a \<Rightarrow> 'b prog) \<Rightarrow> 'b prog" where
  "bind m f st = (case m st of (Inl e, st') \<Rightarrow> (Inl e, st') | (Inr v, st') \<Rightarrow> f v st')"

definition log_action :: "action \<Rightarrow> state \<Rightarrow> state" where
  "log_action a st = st\<lparr>trace := trace st @ [a]\<rparr>"

subsection \<open>Endpoint names\<close>

definition GCODE_ENDPOINT :: string where "GCODE_ENDPOINT = ''gcode/script''"
definition SUBSCRIPTION_ENDPOINT :: string where "SUBSCRIPTION_ENDPOINT = ''objects/subscribe''"
definition STATUS_ENDPOINT :: string where "STATUS_ENDPOINT = ''objects/query''"
definition OBJ_LIST_ENDPOINT :: string where "OBJ_LIST_ENDPOINT = ''objects/list''"

section \<open>The request bridge\<close>

text \<open>\<open>await self.klippy.request(WebRequest(method, params, conn=self))\<close>\<close>

definition request :: "env \<Rightarrow> string \<Rightarrow> pyval \<Rightarrow> pyval prog" where
  "request ev method params st =
     (klippy_request ev (trace st) method params, log_action (Request method params) st)"

fun is_server_error :: "exn \<Rightarrow> bool" where
  "is_server_error (ServerError msg status) = True"
| "is_server_error e = False"

text \<open>\<open>isinstance(default, SentinelClass)\<close>\<close>

fun is_sentinel :: "pyval \<Rightarrow> bool" where
  "is_sentinel PSentinel = True"
| "is_sentinel v = False"

text \<open>
  \<open>_send_klippy_request\<close> (\<open>dflt\<close> is the parameter \<open>default\<close>): only
  \<open>self.server.error\<close> is caught; with the sentinel as default it is raised again, with
  any other default the default is the result.
\<close>

definition send_klippy_request :: "env \<Rightarrow> string \<Rightarrow> pyval \<Rightarrow> pyval \<Rightarrow> pyval prog" where
  "send_klippy_request ev method params dflt st =
     (case request ev method params st of
        (Inr result, st') \<Rightarrow> (Inr result, st')
      | (Inl e, st') \<Rightarrow>
          (if is_server_error e
           then (if is_sentinel dflt then (Inl e, st') else (Inr dflt, st'))
           else (Inl e, st')))"

definition run_gcode :: "env \<Rightarrow> string \<Rightarrow> pyval \<Rightarrow> pyval prog" where
  "run_gcode ev script dflt st =
     send_klippy_request ev GCODE_ENDPOINT (PDict [(''script'', PStr script)]) dflt st"

section \<open>The command facade: restart, object list, object query\<close>

text \<open>\<open>await self.klippy.wait_started()\<close>; the boolean it returns is not looked at.\<close>

definition wait_started :: "state \<Rightarrow> state" where
  "wait_started st = log_action WaitStarted st"

definition do_restart :: "env \<Rightarrow> string \<Rightarrow> pyval prog" where
  "do_restart ev gc st =
     (case run_gcode ev gc PSentinel (wait_started st) of
        (Inr result, st') \<Rightarrow> (Inr result, st')
      | (Inl e, st') \<Rightarrow>
          (case e of
             ServerError msg status \<Rightarrow>
               (if msg = ''Klippy Disconnected'' then (Inr (PStr ''ok''), st') else (Inl e, st'))
           | _ \<Rightarrow> (Inl e, st')))"

definition gcode_restart :: "env \<Rightarrow> pyval prog" where
  "gcode_restart ev st = do_restart ev ''RESTART'' st"

definition gcode_firmware_restart :: "env \<Rightarrow> pyval prog" where
  "gcode_firmware_restart ev st = do_restart ev ''FIRMWARE_RESTART'' st"

text \<open>
  \<open>if isinstance(result, dict) and key in result: return result[key]\<close>, else
  \<open>return result\<close>.
\<close>

fun unwrap :: "string \<Rightarrow> pyval \<Rightarrow> pyval" where
  "unwrap key (PDict kvs) = (case map_of kvs key of Some v \<Rightarrow> v | None \<Rightarrow> PDict kvs)"
| "unwrap key v = v"

definition get_object_list :: "env \<Rightarrow> pyval \<Rightarrow> pyval prog" where
  "get_object_list ev dflt st =
     (case send_klippy_request ev OBJ_LIST_ENDPOINT (PDict []) dflt st of
        (Inl e, st') \<Rightarrow> (Inl e, st')
      | (Inr result, st') \<Rightarrow> (Inr (unwrap ''objects'' result), st'))"

text \<open>A \<open>Mapping[str, Optional[List[str]]]\<close> as the value placed in the parameters.\<close>

fun items_to_py :: "string list option \<Rightarrow> pyval" where
  "items_to_py None = PNone"
| "items_to_py (Some fs) = PList (map PStr fs)"

definition objects_to_py :: "subscription \<Rightarrow> pyval" where
  "objects_to_py objs = PDict (map (\<lambda>(obj, items). (obj, items_to_py items)) objs)"

definition query_objects :: "env \<Rightarrow> subscription \<Rightarrow> pyval \<Rightarrow> pyval prog" where
  "query_objects ev objects dflt st =
     (case send_klippy_request ev STATUS_ENDPOINT
             (PDict [(''objects'', objects_to_py objects)]) dflt st of
        (Inl e, st') \<Rightarrow> (Inl e, st')
      | (Inr result, st') \<Rightarrow> (Inr (unwrap ''status'' result), st'))"

section \<open>The subscription registry\<close>

text \<open>
  The body of the loop of \<open>subscribe_objects\<close>.  \<open>list(set(prev) | set(items))\<close> has
  the elements of both lists, each once, in an order Python does not fix; the model
  takes the order of first occurrence, and every statement below reads the result
  through \<open>set\<close>.
\<close>

definition merge_entry :: "subscription \<Rightarrow> string \<Rightarrow> string list option \<Rightarrow> subscription" where
  "merge_entry hs obj items =
     (case map_of hs obj of
        Some prev \<Rightarrow>
          (case (items, prev) of
             (Some its, Some pv) \<Rightarrow> AList.update obj (Some (remdups (pv @ its))) hs
           | _ \<Rightarrow> AList.update obj None hs)
      | None \<Rightarrow> AList.update obj items hs)"

text \<open>\<open>for obj, items in objects.items(): ...\<close>\<close>

fun merge_objects :: "subscription \<Rightarrow> subscription \<Rightarrow> subscription" where
  "merge_objects hs [] = hs"
| "merge_objects hs ((obj, items) # rest) = merge_objects (merge_entry hs obj items) rest"

text \<open>
  \<open>subscribe_objects\<close>: the registry is written before the request is made, and the
  state returned holds it whether the request succeeds, raises or is replaced by the
  default.
\<close>

definition subscribe_objects :: "env \<Rightarrow> subscription \<Rightarrow> pyval \<Rightarrow> pyval prog" where
  "subscribe_objects ev objects dflt st =
     (let st1 = st\<lparr>host_subscription := merge_objects (host_subscription st) objects\<rparr>
      in case send_klippy_request ev SUBSCRIPTION_ENDPOINT
                (PDict [(''objects'', objects_to_py (host_subscription st1))]) dflt st1 of
           (Inl e, st') \<Rightarrow> (Inl e, st')
         | (Inr result, st') \<Rightarrow> (Inr (unwrap ''status'' result), st'))"

text \<open>A run of \<open>subscribe_objects\<close> calls; a call that raises leaves its state behind.\<close>

fun subscribe_all :: "env \<Rightarrow> (subscription \<times> pyval) list \<Rightarrow> state \<Rightarrow> state" where
  "subscribe_all ev [] st = st"
| "subscribe_all ev ((objects, dflt) # calls) st =
     subscribe_all ev calls (snd (subscribe_objects ev objects dflt st))"

section \<open>Paths and the file system\<close>

text \<open>
  The functions of \<open>posixpath\<close> the component calls (\<open>os.path.sep\<close> is \<open>/\<close>).
  \<open>os.path.split\<close> cuts after the last separator and strips the trailing separators
  of a head that is not made of separators only.
\<close>

definition is_sep :: "char \<Rightarrow> bool" where
  "is_sep c = (c = CHR ''/'')"

definition path_split :: "string \<Rightarrow> string \<times> string" where
  "path_split p =
     (let head = rev (dropWhile (\<lambda>c. \<not> is_sep c) (rev p));
          tail = rev (takeWhile (\<lambda>c. \<not> is_sep c) (rev p))
      in (if head \<noteq> [] \<and> \<not> list_all is_sep head
          then rev (dropWhile is_sep (rev head)) else head, tail))"

definition basename :: "string \<Rightarrow> string" where
  "basename p = rev (takeWhile (\<lambda>c. \<not> is_sep c) (rev p))"

text \<open>\<open>s.split(os.path.sep)[0]\<close>\<close>

definition first_segment :: "string \<Rightarrow> string" where
  "first_segment s = takeWhile (\<lambda>c. \<not> is_sep c) s"

text \<open>\<open>os.path.join(a, b)\<close>\<close>

definition path_join :: "string \<Rightarrow> string \<Rightarrow> string" where
  "path_join a b =
     (if b \<noteq> [] \<and> is_sep (hd b) then b
      else if a = [] \<or> is_sep (last a) then a @ b
      else a @ ''/'' @ b)"

text \<open>\<open>filename.replace("\"", "\\\"")\<close>: a backslash before every double quote.\<close>

definition escape_quotes :: "string \<Rightarrow> string" where
  "escape_quotes s = concat (map (\<lambda>c. if c = CHR 0x22 then [CHR 0x5C, CHR 0x22] else [c]) s)"

text \<open>
  The file system is a map from path strings to entries.  Paths are compared as
  strings: \<open>.\<close>, \<open>..\<close>, doubled separators and links are not resolved.
\<close>

definition os_path_exists :: "string \<Rightarrow> state \<Rightarrow> bool" where
  "os_path_exists p st = (nodes st p \<noteq> None)"

fun is_file :: "node option \<Rightarrow> bool" where
  "is_file (Some (File b)) = True"
| "is_file n = False"

text \<open>The directories above \<open>p\<close>: the text before each separator past the first character.\<close>

definition ancestors :: "string \<Rightarrow> string list" where
  "ancestors p = map (\<lambda>i. take i p) (filter (\<lambda>i. is_sep (p ! i)) [1..<length p])"

text \<open>\<open>os.makedirs(p)\<close>: fails on an existing path, creates the missing directories above.\<close>

definition os_makedirs :: "string \<Rightarrow> unit prog" where
  "os_makedirs p st =
     (let st1 = log_action (Makedirs p) st
      in if nodes st p \<noteq> None then (Inl FileExistsError, st1)
         else if list_ex (\<lambda>a. is_file (nodes st a)) (ancestors p) then (Inl NotADirectoryError, st1)
         else (Inr (),
               st1\<lparr>nodes := (\<lambda>q. if q = p \<or> (q \<in> set (ancestors p) \<and> nodes st q = None)
                                 then Some Dir else nodes st q)\<rparr>))"

text \<open>\<open>shutil.rmtree(p)\<close>: removes the directory and everything below it.\<close>

definition shutil_rmtree :: "string \<Rightarrow> unit prog" where
  "shutil_rmtree p st =
     (let st1 = log_action (Rmtree p) st
      in case nodes st p of
           None \<Rightarrow> (Inl FileNotFoundError, st1)
         | Some (File b) \<Rightarrow> (Inl NotADirectoryError, st1)
         | Some Dir \<Rightarrow>
             (Inr (), st1\<lparr>nodes := (\<lambda>q. if q = p \<or> prefix (p @ ''/'') q then None
                                        else nodes st q)\<rparr>))"

text \<open>\<open>os.path.getsize(p)\<close>\<close>

definition os_path_getsize :: "env \<Rightarrow> string \<Rightarrow> state \<Rightarrow> exn + nat" where
  "os_path_getsize ev p st =
     (case nodes st p of
        None \<Rightarrow> Inl FileNotFoundError
      | Some (File b) \<Rightarrow> Inr (length b)
      | Some Dir \<Rightarrow> Inr (dir_size ev))"

text \<open>
  \<open>stat.f_frsize * stat.f_bfree\<close> for \<open>stat = os.statvfs(p)\<close>: the free bytes of the
  file system that holds \<open>p\<close>.
\<close>

definition free_space_at :: "env \<Rightarrow> string \<Rightarrow> nat" where
  "free_space_at ev p = fst (statvfs ev p) * snd (statvfs ev p)"

text \<open>
  \<open>shutil.copy(src, dst)\<close>: into \<open>dst\<close> when it is a directory, onto \<open>dst\<close> otherwise;
  the directory of the destination must exist.  The destination is opened for
  writing, which empties a file already there, and the bytes are written in order:
  when they exceed the room on the file system that holds the destination (its free
  bytes and those of the file replaced), the write fails with \<open>errno\<close> 28 and the
  destination is left with the bytes written so far.
\<close>

definition shutil_copy :: "env \<Rightarrow> string \<Rightarrow> string \<Rightarrow> unit prog" where
  "shutil_copy ev src dst st =
     (let st1 = log_action (CopyFile src dst) st;
          dst' = (if nodes st dst = Some Dir then path_join dst (basename src) else dst);
          parent = fst (path_split dst');
          room = free_space_at ev (if parent = [] then ''.'' else parent) +
                 (case nodes st dst' of Some (File old) \<Rightarrow> length old | _ \<Rightarrow> 0)
      in case nodes st src of
           None \<Rightarrow> (Inl FileNotFoundError, st1)
         | Some Dir \<Rightarrow> (Inl IsADirectoryError, st1)
         | Some (File b) \<Rightarrow>
             if dst' = src then (Inl SameFileError, st1)
             else if nodes st dst' = Some Dir then (Inl IsADirectoryError, st1)
             else if parent \<noteq> [] \<and> nodes st parent \<noteq> Some Dir then (Inl FileNotFoundError, st1)
             else if length b \<le> room
             then (Inr (), st1\<lparr>nodes := (nodes st)(dst' \<mapsto> File b)\<rparr>)
             else (Inl NoSpaceError, st1\<lparr>nodes := (nodes st)(dst' \<mapsto> File (take room b))\<rparr>))"

section \<open>Job staging and the start of a print\<close>

definition send_event :: "string \<Rightarrow> pyval list \<Rightarrow> state \<Rightarrow> state" where
  "send_event name args st = log_action (SendEvent name args) st"

text \<open>
  \<open>copy_file_to_cache\<close> asks for the free bytes of \<open>"/"\<close>, whatever the target is, and
  copies the file when its size is strictly below the answer.
\<close>

definition copy_file_to_cache :: "env \<Rightarrow> string \<Rightarrow> string \<Rightarrow> unit prog" where
  "copy_file_to_cache ev origin target st =
     (let free_space = free_space_at ev ''/''
      in case os_path_getsize ev origin st of
           Inl e \<Rightarrow> (Inl e, st)
         | Inr filesize \<Rightarrow>
             if filesize < free_space then shutil_copy ev origin target st
             else (Inl (ServerError ''Insufficient disk space, unable to read the file.'' 500),
                   send_event ''server:gcode_response''
                     [PStr ''!! Insufficient disk space, unable to read the file.''] st))"

text \<open>
  The first lines of \<open>start_print\<close>: \<open>filename[0]\<close> raises on the empty string;
  one leading separator is dropped and the double quotes are escaped.
\<close>

definition normalize_filename :: "string \<Rightarrow> exn + string" where
  "normalize_filename filename =
     (case filename of
        [] \<Rightarrow> Inl IndexError
      | c # cs \<Rightarrow> Inr (escape_quotes (if c = CHR ''/'' then cs else filename)))"

text \<open>\<open>os.path.split(filename)[0].split(os.path.sep)[0] == ".cache"\<close>\<close>

definition in_cache :: "string \<Rightarrow> bool" where
  "in_cache filename = (first_segment (fst (path_split filename)) = ''.cache'')"

text \<open>The last three lines of \<open>start_print\<close>.\<close>

definition print_file :: "env \<Rightarrow> string \<Rightarrow> pyval prog" where
  "print_file ev filename st =
     run_gcode ev (''SDCARD_PRINT_FILE FILENAME='' @ [CHR 0x22] @ filename @ [CHR 0x22])
       PSentinel (wait_started st)"

text \<open>The body of the \<open>if\<close> of \<open>start_print\<close>, up to and including the event.\<close>

definition stage_job :: "env \<Rightarrow> string \<Rightarrow> string prog" where
  "stage_job ev filename =
     (let base_path = path_join (homedir ev) ''gcode_files'';
          target = path_join ''.cache'' (basename filename);
          cache_path = path_join base_path ''.cache''
      in bind (\<lambda>st. if \<not> os_path_exists cache_path st then os_makedirs cache_path st
                     else (Inr (), st))
        (\<lambda>u1. bind (shutil_rmtree cache_path)
        (\<lambda>u2. bind (os_makedirs cache_path)
        (\<lambda>u3. bind (copy_file_to_cache ev (path_join base_path filename)
                       (path_join base_path target))
        (\<lambda>u4 st. (Inr target,
             send_event ''server:gcode_response''
               [PStr (''// metadata='' @
                  json_dumps ev (case gcode_metadata ev filename of None \<Rightarrow> PNone | Some m \<Rightarrow> m))]
               st))))))"

definition start_print :: "env \<Rightarrow> string \<Rightarrow> pyval prog" where
  "start_print ev filename st =
     (case normalize_filename filename of
        Inl e \<Rightarrow> (Inl e, st)
      | Inr fname \<Rightarrow>
          if \<not> in_cache fname
          then bind (stage_job ev fname) (print_file ev) st
          else print_file ev fname st)"

text \<open>\<open>_gcode_start_print\<close>: the handler of \<open>/printer/print/start\<close>.\<close>

definition gcode_start_print :: "env \<Rightarrow> string \<Rightarrow> pyval prog" where
  "gcode_start_print ev filename st = start_print ev filename st"

section \<open>Reading the registry, and concrete environments\<close>

text \<open>The finite field set an object has in a subscription; empty when absent or all fields.\<close>

definition subscribed_fields :: "subscription \<Rightarrow> string \<Rightarrow> string set" where
  "subscribed_fields hs obj = (case map_of hs obj of Some (Some fs) \<Rightarrow> set fs | _ \<Rightarrow> {})"

text \<open>
  A freshly constructed component (\<open>host_subscription = {}\<close>) on a printer whose
  \<open>gcode_files\<close> directory holds one job file.
\<close>

definition st_init :: state where
  "st_init = \<lparr>host_subscription = [],
              nodes = [''/home/mks/gcode_files'' \<mapsto> Dir,
                       ''/home/mks/gcode_files/a.gcode'' \<mapsto> File ''G28''],
              trace = []\<rparr>"

text \<open>The same printer after that job has been staged into the cache directory.\<close>

definition st_staged :: state where
  "st_staged = st_init\<lparr>nodes := (nodes st_init)
       (''/home/mks/gcode_files/.cache'' \<mapsto> Dir,
        ''/home/mks/gcode_files/.cache/a.gcode'' \<mapsto> File ''G28'')\<rparr>"

text \<open>A Klippy that answers every request, and one that is disconnected.\<close>

definition ev_up :: env where
  "ev_up = \<lparr>homedir = ''/home/mks'',
            klippy_request = (\<lambda>tr method params.
               if method = ''objects/query'' \<or> method = ''objects/subscribe''
               then Inr (PDict [(''status'', PDict [(''toolhead'',
                          PDict [(''position'', PList [PInt 0, PInt 0, PInt 0])])])])
               else if method = ''objects/list''
               then Inr (PDict [(''objects'', PList [PStr ''toolhead'', PStr ''extruder''])])
               else Inr (PStr ''ok'')),
            gcode_metadata = Map.empty,
            json_dumps = (\<lambda>v. ''null''),
            statvfs = (\<lambda>p. (4096, 100)),
            dir_size = 4096\<rparr>"

definition ev_down :: env where
  "ev_down = ev_up\<lparr>klippy_request := (\<lambda>tr method params.
               Inl (ServerError ''Klippy Disconnected'' 503))\<rparr>"

text \<open>
  A printer whose root file system has a hundred free blocks while the file system
  mounted for the job files has one; a job of 5000 bytes lies there, and the cache
  directory is empty.
\<close>

definition ev_split :: env where
  "ev_split = ev_up\<lparr>statvfs := (\<lambda>p. if p = ''/'' then (4096, 100) else (4096, 1))\<rparr>"

definition st_big :: state where
  "st_big = \<lparr>host_subscription = [],
             nodes = [''/home/mks/gcode_files'' \<mapsto> Dir,
                      ''/home/mks/gcode_files/big.gcode'' \<mapsto> File (replicate 5000 (CHR ''G'')),
                      ''/home/mks/gcode_files/.cache'' \<mapsto> Dir],
             trace = []\<rparr>"

section \<open>Properties of the request bridge and the facade\<close>

lemma send_klippy_request_snd:
  "snd (send_klippy_request ev method params dflt st) = log_action (Request method params) st"
  by (simp add: send_klippy_request_def request_def split: sum.splits)

lemma send_klippy_request_fst:
  "fst (send_klippy_request ev method params dflt st) =
     (case klippy_request ev (trace st) method params of
        Inr result \<Rightarrow> Inr result
      | Inl e \<Rightarrow> if is_server_error e \<and> \<not> is_sentinel dflt then Inr dflt else Inl e)"
  by (simp add: send_klippy_request_def request_def split: sum.splits)

lemma is_sentinel_iff: "is_sentinel v = (v = PSentinel)"
  by (cases v) simp_all

text \<open>
  C1.  Whatever the method and the parameters, when the Klippy request fails with the
  server's error class, the bridge called with the sentinel as default raises that
  same error, and called with any other default \<open>x\<close> it returns \<open>x\<close> and raises nothing.
\<close>

theorem send_klippy_request_default:
  assumes "klippy_request ev (trace st) method params = Inl e" and "is_server_error e"
  shows "fst (send_klippy_request ev method params PSentinel st) = Inl e \<and>
         (\<forall>x. x \<noteq> PSentinel \<longrightarrow> fst (send_klippy_request ev method params x st) = Inr x)"
  using assms by (simp add: send_klippy_request_fst is_sentinel_iff)

theorem send_klippy_request_default_witness:
  "klippy_request ev_down (trace st_init) ''info'' (PDict []) =
     Inl (ServerError ''Klippy Disconnected'' 503) \<and>
   is_server_error (ServerError ''Klippy Disconnected'' 503) \<and>
   fst (send_klippy_request ev_down ''info'' (PDict []) PSentinel st_init) =
     Inl (ServerError ''Klippy Disconnected'' 503) \<and>
   fst (send_klippy_request ev_down ''info'' (PDict []) PNone st_init) = Inr PNone"
proof -
  have h1: "klippy_request ev_down (trace st_init) ''info'' (PDict []) =
              Inl (ServerError ''Klippy Disconnected'' 503)"
    by (simp add: ev_down_def)
  have h2: "is_server_error (ServerError ''Klippy Disconnected'' 503)"
    by simp
  show ?thesis
    using h1 h2 send_klippy_request_default [OF h1 h2] by simp
qed

lemma run_gcode_fst:
  "fst (run_gcode ev script dflt st) =
     (case klippy_request ev (trace st) GCODE_ENDPOINT (PDict [(''script'', PStr script)]) of
        Inr result \<Rightarrow> Inr result
      | Inl e \<Rightarrow> if is_server_error e \<and> \<not> is_sentinel dflt then Inr dflt else Inl e)"
  by (simp add: run_gcode_def send_klippy_request_fst)

lemma run_gcode_snd:
  "snd (run_gcode ev script dflt st) =
     log_action (Request GCODE_ENDPOINT (PDict [(''script'', PStr script)])) st"
  by (simp add: run_gcode_def send_klippy_request_snd)

lemma do_restart_fst:
  "fst (do_restart ev gc st) =
     (case fst (run_gcode ev gc PSentinel (wait_started st)) of
        Inr result \<Rightarrow> Inr result
      | Inl e \<Rightarrow> (case e of ServerError msg status \<Rightarrow>
                    if msg = ''Klippy Disconnected'' then Inr (PStr ''ok'') else Inl e
                  | _ \<Rightarrow> Inl e))"
  by (cases "run_gcode ev gc PSentinel (wait_started st)")
     (simp add: do_restart_def split: sum.splits exn.splits)

text \<open>
  C7.  When the request made by a restart (any script, so both \<open>RESTART\<close> and
  \<open>FIRMWARE_RESTART\<close>) fails: if the error is the server error whose message is
  \<open>Klippy Disconnected\<close> the operation returns \<open>"ok"\<close>; every other error is raised
  to the caller as it is.
\<close>

theorem do_restart_disconnected:
  assumes "klippy_request ev (trace st @ [WaitStarted]) ''gcode/script''
             (PDict [(''script'', PStr gc)]) = Inl e"
  shows "((\<exists>status. e = ServerError ''Klippy Disconnected'' status) \<longrightarrow>
            fst (do_restart ev gc st) = Inr (PStr ''ok'')) \<and>
         ((\<forall>status. e \<noteq> ServerError ''Klippy Disconnected'' status) \<longrightarrow>
            fst (do_restart ev gc st) = Inl e)"
  using assms
  by (cases e)
     (auto simp: do_restart_fst run_gcode_fst wait_started_def log_action_def GCODE_ENDPOINT_def)

theorem do_restart_disconnected_witness:
  "klippy_request ev_down (trace st_init @ [WaitStarted]) ''gcode/script''
      (PDict [(''script'', PStr ''RESTART'')]) = Inl (ServerError ''Klippy Disconnected'' 503) \<and>
   fst (gcode_restart ev_down st_init) = Inr (PStr ''ok'')"
proof -
  have h: "klippy_request ev_down (trace st_init @ [WaitStarted]) ''gcode/script''
      (PDict [(''script'', PStr ''RESTART'')]) = Inl (ServerError ''Klippy Disconnected'' 503)"
    by (simp add: ev_down_def)
  show ?thesis
    using h do_restart_disconnected [OF h] by (simp add: gcode_restart_def)
qed

lemma unwrap_absent:
  "(\<forall>kvs. reply = PDict kvs \<longrightarrow> map_of kvs key = None) \<Longrightarrow> unwrap key reply = reply"
  by (cases reply) simp_all

lemma query_objects_fst:
  "fst (query_objects ev objects dflt st) =
     (case fst (send_klippy_request ev STATUS_ENDPOINT
                  (PDict [(''objects'', objects_to_py objects)]) dflt st) of
        Inl e \<Rightarrow> Inl e | Inr result \<Rightarrow> Inr (unwrap ''status'' result))"
  by (cases "send_klippy_request ev STATUS_ENDPOINT
               (PDict [(''objects'', objects_to_py objects)]) dflt st")
     (simp add: query_objects_def split: sum.splits)

lemma get_object_list_fst:
  "fst (get_object_list ev dflt st) =
     (case fst (send_klippy_request ev OBJ_LIST_ENDPOINT (PDict []) dflt st) of
        Inl e \<Rightarrow> Inl e | Inr result \<Rightarrow> Inr (unwrap ''objects'' result))"
  by (cases "send_klippy_request ev OBJ_LIST_ENDPOINT (PDict []) dflt st")
     (simp add: get_object_list_def split: sum.splits)

text \<open>
  C8.  When Klippy replies to \<open>objects/query\<close>, \<open>query_objects\<close> returns the value under
  \<open>status\<close> if the reply is a dictionary with that key and the reply itself otherwise;
  \<open>get_object_list\<close> does the same with \<open>objects/list\<close> and the key \<open>objects\<close>.  In
  particular a query for the position of the toolhead answered by
  \<open>{"status": {"toolhead": {"position": [0,0,0]}}}\<close> returns
  \<open>{"toolhead": {"position": [0,0,0]}}\<close>.
\<close>

theorem query_objects_unwrap:
  "(klippy_request ev (trace st) ''objects/query''
        (PDict [(''objects'', objects_to_py objects)]) = Inr reply \<longrightarrow>
      (\<forall>kvs v. reply = PDict kvs \<and> map_of kvs ''status'' = Some v \<longrightarrow>
          fst (query_objects ev objects dflt st) = Inr v) \<and>
      ((\<forall>kvs. reply = PDict kvs \<longrightarrow> map_of kvs ''status'' = None) \<longrightarrow>
          fst (query_objects ev objects dflt st) = Inr reply)) \<and>
   (klippy_request ev (trace st) ''objects/list'' (PDict []) = Inr lreply \<longrightarrow>
      (\<forall>kvs v. lreply = PDict kvs \<and> map_of kvs ''objects'' = Some v \<longrightarrow>
          fst (get_object_list ev dflt st) = Inr v) \<and>
      ((\<forall>kvs. lreply = PDict kvs \<longrightarrow> map_of kvs ''objects'' = None) \<longrightarrow>
          fst (get_object_list ev dflt st) = Inr lreply)) \<and>
   (klippy_request ev (trace st) ''objects/query''
        (PDict [(''objects'', PDict [(''toolhead'', PList [PStr ''position''])])]) =
      Inr (PDict [(''status'', PDict [(''toolhead'',
              PDict [(''position'', PList [PInt 0, PInt 0, PInt 0])])])]) \<longrightarrow>
      fst (query_objects ev [(''toolhead'', Some [''position''])] dflt st) =
        Inr (PDict [(''toolhead'', PDict [(''position'', PList [PInt 0, PInt 0, PInt 0])])]))"
  by (auto simp: query_objects_fst get_object_list_fst send_klippy_request_fst
        STATUS_ENDPOINT_def OBJ_LIST_ENDPOINT_def unwrap_absent objects_to_py_def)

theorem query_objects_unwrap_witness:
  "klippy_request ev_up (trace st_init) ''objects/query''
        (PDict [(''objects'', PDict [(''toolhead'', PList [PStr ''position''])])]) =
      Inr (PDict [(''status'', PDict [(''toolhead'',
              PDict [(''position'', PList [PInt 0, PInt 0, PInt 0])])])]) \<and>
   fst (query_objects ev_up [(''toolhead'', Some [''position''])] PSentinel st_init) =
      Inr (PDict [(''toolhead'', PDict [(''position'', PList [PInt 0, PInt 0, PInt 0])])]) \<and>
   klippy_request ev_up (trace st_init) ''objects/list'' (PDict []) =
      Inr (PDict [(''objects'', PList [PStr ''toolhead'', PStr ''extruder''])]) \<and>
   fst (get_object_list ev_up PSentinel st_init) =
      Inr (PList [PStr ''toolhead'', PStr ''extruder''])"
proof -
  have h1: "klippy_request ev_up (trace st_init) ''objects/query''
        (PDict [(''objects'', PDict [(''toolhead'', PList [PStr ''position''])])]) =
      Inr (PDict [(''status'', PDict [(''toolhead'',
              PDict [(''position'', PList [PInt 0, PInt 0, PInt 0])])])])"
    by (simp add: ev_up_def)
  have h2: "klippy_request ev_up (trace st_init) ''objects/list'' (PDict []) =
      Inr (PDict [(''objects'', PList [PStr ''toolhead'', PStr ''extruder''])])"
    by (simp add: ev_up_def)
  show ?thesis
    using h1 h2
      query_objects_unwrap [of ev_up st_init "[(''toolhead'', Some [''position''])]"
        "PDict [(''status'', PDict [(''toolhead'',
              PDict [(''position'', PList [PInt 0, PInt 0, PInt 0])])])]" PSentinel
        "PDict [(''objects'', PList [PStr ''toolhead'', PStr ''extruder''])]"]
    by (simp add: objects_to_py_def)
qed

section \<open>Properties of the subscription registry\<close>

lemma map_of_merge_entry:
  "map_of (merge_entry hs obj items) =
     (map_of hs)(obj \<mapsto> (case map_of hs obj of
                            None \<Rightarrow> items
                          | Some prev \<Rightarrow> (case (items, prev) of
                               (Some its, Some pv) \<Rightarrow> Some (remdups (pv @ its))
                             | _ \<Rightarrow> None)))"
  by (simp add: merge_entry_def update_conv' split: option.splits)

lemma keys_merge_entry: "fst ` set (merge_entry hs obj items) = insert obj (fst ` set hs)"
  by (simp add: merge_entry_def dom_update split: option.splits)

lemma keys_merge_objects:
  "fst ` set (merge_objects hs objects) = fst ` set hs \<union> fst ` set objects"
  by (induction hs objects rule: merge_objects.induct) (auto simp: keys_merge_entry)

lemma merge_objects_other:
  "obj \<notin> fst ` set objects \<Longrightarrow> map_of (merge_objects hs objects) obj = map_of hs obj"
  by (induction hs objects rule: merge_objects.induct) (auto simp: map_of_merge_entry)

lemma merge_objects_all_fields:
  "map_of hs obj = Some None \<Longrightarrow> map_of (merge_objects hs objects) obj = Some None"
proof (induction hs objects rule: merge_objects.induct)
  case (1 hs)
  then show ?case by simp
next
  case (2 hs o' items rest)
  have "map_of (merge_entry hs o' items) obj = Some None"
    using "2.prems"
    by (cases "obj = o'") (auto simp: map_of_merge_entry split: option.splits)
  then show ?case
    using "2.IH" by simp
qed

lemma subscribe_objects_snd:
  "snd (subscribe_objects ev objects dflt st) =
     log_action (Request SUBSCRIPTION_ENDPOINT
        (PDict [(''objects'', objects_to_py (merge_objects (host_subscription st) objects))]))
       (st\<lparr>host_subscription := merge_objects (host_subscription st) objects\<rparr>)"
proof -
  let ?st1 = "st\<lparr>host_subscription := merge_objects (host_subscription st) objects\<rparr>"
  let ?p = "PDict [(''objects'', objects_to_py (merge_objects (host_subscription st) objects))]"
  have "snd (send_klippy_request ev SUBSCRIPTION_ENDPOINT ?p dflt ?st1) =
          log_action (Request SUBSCRIPTION_ENDPOINT ?p) ?st1"
    by (rule send_klippy_request_snd)
  then show ?thesis
    by (cases "send_klippy_request ev SUBSCRIPTION_ENDPOINT ?p dflt ?st1")
       (simp add: subscribe_objects_def Let_def split: sum.splits)
qed

lemma subscribe_objects_fst:
  "fst (subscribe_objects ev objects dflt st) =
     (case fst (send_klippy_request ev SUBSCRIPTION_ENDPOINT
        (PDict [(''objects'', objects_to_py (merge_objects (host_subscription st) objects))]) dflt
        (st\<lparr>host_subscription := merge_objects (host_subscription st) objects\<rparr>)) of
        Inl e \<Rightarrow> Inl e | Inr result \<Rightarrow> Inr (unwrap ''status'' result))"
proof -
  let ?st1 = "st\<lparr>host_subscription := merge_objects (host_subscription st) objects\<rparr>"
  let ?p = "PDict [(''objects'', objects_to_py (merge_objects (host_subscription st) objects))]"
  show ?thesis
    by (cases "send_klippy_request ev SUBSCRIPTION_ENDPOINT ?p dflt ?st1")
       (simp add: subscribe_objects_def Let_def split: sum.splits)
qed

lemma subscribe_objects_registry:
  "host_subscription (snd (subscribe_objects ev objects dflt st)) =
     merge_objects (host_subscription st) objects"
  by (simp add: subscribe_objects_snd log_action_def)

lemma subscribe_objects_trace:
  "trace (snd (subscribe_objects ev objects dflt st)) =
     trace st @ [Request SUBSCRIPTION_ENDPOINT
        (PDict [(''objects'', objects_to_py (merge_objects (host_subscription st) objects))])]"
  by (simp add: subscribe_objects_snd log_action_def)

text \<open>
  C2.  Once the registry maps an object to \<open>None\<close> (all fields), it still does after any
  run of further \<open>subscribe_objects\<close> calls, whatever they request for that object
  (an empty list, a partial list, nothing) and whether or not their requests succeed.
\<close>

theorem all_fields_never_narrowed:
  "map_of (host_subscription st) obj = Some None \<Longrightarrow>
   map_of (host_subscription (subscribe_all ev calls st)) obj = Some None"
proof (induction calls arbitrary: st)
  case Nil
  then show ?case by simp
next
  case (Cons c calls)
  obtain objects dflt where c: "c = (objects, dflt)" by (cases c)
  have "map_of (host_subscription (snd (subscribe_objects ev objects dflt st))) obj = Some None"
    using Cons.prems by (simp add: subscribe_objects_registry merge_objects_all_fields)
  then show ?case
    using Cons.IH c by simp
qed

theorem all_fields_never_narrowed_witness:
  "map_of (host_subscription
      (snd (subscribe_objects ev_up [(''extruder'', None)] PSentinel st_init))) ''extruder'' =
     Some None \<and>
   map_of (host_subscription
      (subscribe_all ev_down
         [([(''extruder'', Some [''temperature''])], PSentinel),
          ([(''extruder'', Some [])], PNone)]
         (snd (subscribe_objects ev_up [(''extruder'', None)] PSentinel st_init)))) ''extruder'' =
     Some None"
proof -
  have h: "map_of (host_subscription
      (snd (subscribe_objects ev_up [(''extruder'', None)] PSentinel st_init))) ''extruder'' =
     Some None"
    by (simp add: subscribe_objects_registry st_init_def merge_entry_def)
  show ?thesis
    using h all_fields_never_narrowed [OF h] by blast
qed

lemma merge_objects_finite:
  assumes "distinct (map fst objects)" and "map_of objects obj = Some (Some its)"
    and "map_of hs obj \<noteq> Some None"
  shows "\<exists>fs. map_of (merge_objects hs objects) obj = Some (Some fs) \<and>
              set fs = subscribed_fields hs obj \<union> set its"
  using assms
proof (induction hs objects rule: merge_objects.induct)
  case (1 hs)
  then show ?case by simp
next
  case (2 hs o' items rest)
  show ?case
  proof (cases "o' = obj")
    case True
    with 2 have items: "items = Some its" and nin: "obj \<notin> fst ` set rest"
      by auto
    have "map_of (merge_objects (merge_entry hs o' items) rest) obj =
          map_of (merge_entry hs o' items) obj"
      using nin by (rule merge_objects_other)
    then show ?thesis
      using True items "2.prems"(3)
      by (auto simp: map_of_merge_entry subscribed_fields_def split: option.splits)
  next
    case False
    have eq: "map_of (merge_entry hs o' items) obj = map_of hs obj"
      using False by (simp add: map_of_merge_entry)
    then have "subscribed_fields (merge_entry hs o' items) obj = subscribed_fields hs obj"
      by (simp add: subscribed_fields_def)
    moreover have "\<exists>fs. map_of (merge_objects (merge_entry hs o' items) rest) obj =
                         Some (Some fs) \<and>
              set fs = subscribed_fields (merge_entry hs o' items) obj \<union> set its"
      using "2.IH" "2.prems" False eq by simp
    ultimately show ?thesis by simp
  qed
qed

lemma subscribe_all_finite:
  assumes "\<forall>c \<in> set calls. distinct (map fst (fst c)) \<and>
                            (\<exists>fs. map_of (fst c) obj = Some (Some fs))"
    and "map_of (host_subscription st) obj \<noteq> Some None"
  shows "map_of (host_subscription (subscribe_all ev calls st)) obj \<noteq> Some None \<and>
         (calls \<noteq> [] \<longrightarrow> map_of (host_subscription (subscribe_all ev calls st)) obj \<noteq> None) \<and>
         subscribed_fields (host_subscription (subscribe_all ev calls st)) obj =
           subscribed_fields (host_subscription st) obj \<union>
           (\<Union>c \<in> set calls. subscribed_fields (fst c) obj)"
  using assms
proof (induction calls arbitrary: st)
  case Nil
  then show ?case by simp
next
  case (Cons c calls)
  obtain objects dflt where c: "c = (objects, dflt)" by (cases c)
  from Cons.prems c obtain its where d: "distinct (map fst objects)"
    and its: "map_of objects obj = Some (Some its)"
    by auto
  let ?st1 = "snd (subscribe_objects ev objects dflt st)"
  obtain fs where fs: "map_of (host_subscription ?st1) obj = Some (Some fs)"
    and sfs: "set fs = subscribed_fields (host_subscription st) obj \<union> set its"
    using merge_objects_finite [OF d its Cons.prems(2)]
    by (auto simp: subscribe_objects_registry)
  have ih: "map_of (host_subscription (subscribe_all ev calls ?st1)) obj \<noteq> Some None \<and>
         (calls \<noteq> [] \<longrightarrow> map_of (host_subscription (subscribe_all ev calls ?st1)) obj \<noteq> None) \<and>
         subscribed_fields (host_subscription (subscribe_all ev calls ?st1)) obj =
           subscribed_fields (host_subscription ?st1) obj \<union>
           (\<Union>c \<in> set calls. subscribed_fields (fst c) obj)"
  proof (rule Cons.IH)
    show "\<forall>c \<in> set calls. distinct (map fst (fst c)) \<and>
                            (\<exists>fs. map_of (fst c) obj = Some (Some fs))"
      using Cons.prems(1) by (meson list.set_intros(2))
    show "map_of (host_subscription ?st1) obj \<noteq> Some None"
      using fs by simp
  qed
  have one: "subscribed_fields (host_subscription ?st1) obj =
             subscribed_fields (host_subscription st) obj \<union> subscribed_fields objects obj"
    using fs sfs its by (simp add: subscribed_fields_def)
  have present: "map_of (host_subscription (subscribe_all ev calls ?st1)) obj \<noteq> None"
  proof (cases "calls = []")
    case True
    then show ?thesis using fs by simp
  next
    case False
    then show ?thesis using ih by blast
  qed
  have un: "subscribed_fields (host_subscription (subscribe_all ev calls ?st1)) obj =
           subscribed_fields (host_subscription st) obj \<union>
           (\<Union>c \<in> set ((objects, dflt) # calls). subscribed_fields (fst c) obj)"
    using ih one by auto
  have step: "subscribe_all ev (c # calls) st = subscribe_all ev calls ?st1"
    using c by simp
  show ?case
    unfolding step using ih present un c by blast
qed

text \<open>
  C3.  Take an object whose registry entry is not all-fields and a non-empty run of
  \<open>subscribe_objects\<close> calls, each a mapping (distinct keys) that gives the object a
  finite field list.  Afterwards the entry is a finite list whose set is the union of
  what the registry held for the object (nothing, in a fresh registry) and all the
  requested lists; and any other run made of the same calls, in any order, ends with
  the same field set.
\<close>

theorem subscribe_all_union:
  assumes "map_of (host_subscription st) obj \<noteq> Some None"
    and "calls \<noteq> []"
    and "\<forall>c \<in> set calls. distinct (map fst (fst c)) \<and>
                            (\<exists>fs. map_of (fst c) obj = Some (Some fs))"
  shows "(\<exists>fs. map_of (host_subscription (subscribe_all ev calls st)) obj = Some (Some fs) \<and>
              set fs = subscribed_fields (host_subscription st) obj \<union>
                       (\<Union>c \<in> set calls. subscribed_fields (fst c) obj)) \<and>
         (\<forall>calls'. set calls' = set calls \<longrightarrow>
              subscribed_fields (host_subscription (subscribe_all ev calls' st)) obj =
              subscribed_fields (host_subscription (subscribe_all ev calls st)) obj)"
proof
  have f: "map_of (host_subscription (subscribe_all ev calls st)) obj \<noteq> Some None"
    "map_of (host_subscription (subscribe_all ev calls st)) obj \<noteq> None"
    "subscribed_fields (host_subscription (subscribe_all ev calls st)) obj =
       subscribed_fields (host_subscription st) obj \<union>
       (\<Union>c \<in> set calls. subscribed_fields (fst c) obj)"
    using subscribe_all_finite [OF assms(3) assms(1), of ev] assms(2) by simp_all
  from f(1,2) obtain fs
    where fs: "map_of (host_subscription (subscribe_all ev calls st)) obj = Some (Some fs)"
    by (cases "map_of (host_subscription (subscribe_all ev calls st)) obj") auto
  with f(3) have "set fs = subscribed_fields (host_subscription st) obj \<union>
                       (\<Union>c \<in> set calls. subscribed_fields (fst c) obj)"
    by (simp add: subscribed_fields_def)
  with fs show "\<exists>fs. map_of (host_subscription (subscribe_all ev calls st)) obj =
                       Some (Some fs) \<and>
              set fs = subscribed_fields (host_subscription st) obj \<union>
                       (\<Union>c \<in> set calls. subscribed_fields (fst c) obj)"
    by blast
next
  show "\<forall>calls'. set calls' = set calls \<longrightarrow>
              subscribed_fields (host_subscription (subscribe_all ev calls' st)) obj =
              subscribed_fields (host_subscription (subscribe_all ev calls st)) obj"
  proof (intro allI impI)
    fix calls' assume s: "set calls' = set calls"
    have a: "\<forall>c \<in> set calls'. distinct (map fst (fst c)) \<and>
                               (\<exists>fs. map_of (fst c) obj = Some (Some fs))"
      unfolding s by (rule assms(3))
    show "subscribed_fields (host_subscription (subscribe_all ev calls' st)) obj =
              subscribed_fields (host_subscription (subscribe_all ev calls st)) obj"
      using subscribe_all_finite [OF a assms(1), of ev]
        subscribe_all_finite [OF assms(3) assms(1), of ev] s
      by simp
  qed
qed

theorem subscribe_all_union_witness:
  "map_of (host_subscription st_init) ''extruder'' \<noteq> Some None \<and>
   [([(''extruder'', Some [''temperature''])], PSentinel),
    ([(''toolhead'', None), (''extruder'', Some [''target'', ''temperature''])], PNone)] \<noteq> [] \<and>
   distinct (map fst [(''extruder'', Some [''temperature''])]) \<and>
   map_of [(''extruder'', Some [''temperature''])] ''extruder'' = Some (Some [''temperature'']) \<and>
   distinct (map fst [(''toolhead'', None), (''extruder'', Some [''target'', ''temperature''])]) \<and>
   map_of [(''toolhead'', None), (''extruder'', Some [''target'', ''temperature''])] ''extruder'' =
     Some (Some [''target'', ''temperature'']) \<and>
   (\<exists>fs. map_of (host_subscription (subscribe_all ev_down
         [([(''extruder'', Some [''temperature''])], PSentinel),
          ([(''toolhead'', None), (''extruder'', Some [''target'', ''temperature''])], PNone)]
         st_init)) ''extruder'' = Some (Some fs) \<and>
      set fs = {''temperature'', ''target''}) \<and>
   subscribed_fields (host_subscription (subscribe_all ev_down
         [([(''toolhead'', None), (''extruder'', Some [''target'', ''temperature''])], PNone),
          ([(''extruder'', Some [''temperature''])], PSentinel)]
         st_init)) ''extruder'' =
   subscribed_fields (host_subscription (subscribe_all ev_down
         [([(''extruder'', Some [''temperature''])], PSentinel),
          ([(''toolhead'', None), (''extruder'', Some [''target'', ''temperature''])], PNone)]
         st_init)) ''extruder''"
proof -
  let ?calls = "[([(''extruder'', Some [''temperature''])], PSentinel),
    ([(''toolhead'', None), (''extruder'', Some [''target'', ''temperature''])], PNone)]"
  let ?calls' = "[([(''toolhead'', None), (''extruder'', Some [''target'', ''temperature''])], PNone),
          ([(''extruder'', Some [''temperature''])], PSentinel)]"
  have h1: "map_of (host_subscription st_init) ''extruder'' \<noteq> Some None"
    by (simp add: st_init_def)
  have h2: "?calls \<noteq> []"
    by simp
  have h3: "\<forall>c \<in> set ?calls.
      distinct (map fst (fst c)) \<and> (\<exists>fs. map_of (fst c) ''extruder'' = Some (Some fs))"
    by simp
  have s: "set ?calls' = set ?calls"
    by auto
  have u: "subscribed_fields (host_subscription st_init) ''extruder'' \<union>
           (\<Union>c \<in> set ?calls. subscribed_fields (fst c) ''extruder'') =
           {''temperature'', ''target''}"
    by (auto simp: subscribed_fields_def st_init_def)
  note t = subscribe_all_union [OF h1 h2 h3, of ev_down]
  from t have a: "\<exists>fs. map_of (host_subscription (subscribe_all ev_down ?calls st_init))
        ''extruder'' = Some (Some fs) \<and> set fs = {''temperature'', ''target''}"
    unfolding u by (rule conjunct1)
  from t s have b: "subscribed_fields (host_subscription (subscribe_all ev_down ?calls' st_init))
        ''extruder'' =
      subscribed_fields (host_subscription (subscribe_all ev_down ?calls st_init)) ''extruder''"
    by blast
  have h4: "distinct (map fst [(''extruder'', Some [''temperature''])]) \<and>
   map_of [(''extruder'', Some [''temperature''])] ''extruder'' = Some (Some [''temperature'']) \<and>
   distinct (map fst [(''toolhead'', None), (''extruder'', Some [''target'', ''temperature''])]) \<and>
   map_of [(''toolhead'', None), (''extruder'', Some [''target'', ''temperature''])] ''extruder'' =
     Some (Some [''target'', ''temperature''])"
    by simp
  show ?thesis
    using h1 h2 h4 a b by blast
qed

text \<open>
  C4.  A \<open>subscribe_objects\<close> call leaves the merged registry in the state; the
  registry then names every object it named before and every requested one, and the
  entries of objects that were not requested are as before; the call makes exactly one
  request, \<open>objects/subscribe\<close>, whose \<open>objects\<close> parameter is that whole registry; and
  when Klippy replies, the result is the value under \<open>status\<close> if the reply is a
  dictionary with that key and the reply itself otherwise.
\<close>

theorem subscribe_objects_sends_registry:
  "host_subscription (snd (subscribe_objects ev objects dflt st)) =
     merge_objects (host_subscription st) objects \<and>
   fst ` set (host_subscription (snd (subscribe_objects ev objects dflt st))) =
     fst ` set (host_subscription st) \<union> fst ` set objects \<and>
   (\<forall>obj. obj \<notin> fst ` set objects \<longrightarrow>
      map_of (host_subscription (snd (subscribe_objects ev objects dflt st))) obj =
      map_of (host_subscription st) obj) \<and>
   trace (snd (subscribe_objects ev objects dflt st)) =
     trace st @ [Request ''objects/subscribe''
       (PDict [(''objects'',
          objects_to_py (host_subscription (snd (subscribe_objects ev objects dflt st))))])] \<and>
   (\<forall>reply. klippy_request ev (trace st) ''objects/subscribe''
        (PDict [(''objects'', objects_to_py (merge_objects (host_subscription st) objects))]) =
        Inr reply \<longrightarrow>
      (\<forall>kvs v. reply = PDict kvs \<and> map_of kvs ''status'' = Some v \<longrightarrow>
          fst (subscribe_objects ev objects dflt st) = Inr v) \<and>
      ((\<forall>kvs. reply = PDict kvs \<longrightarrow> map_of kvs ''status'' = None) \<longrightarrow>
          fst (subscribe_objects ev objects dflt st) = Inr reply))"
  by (auto simp: subscribe_objects_registry subscribe_objects_trace keys_merge_objects
        merge_objects_other subscribe_objects_fst send_klippy_request_fst
        SUBSCRIPTION_ENDPOINT_def unwrap_absent simp del: merge_objects.simps)

theorem subscribe_objects_sends_registry_witness:
  "klippy_request ev_up (trace (st_init\<lparr>host_subscription := [(''toolhead'', None)]\<rparr>))
      ''objects/subscribe''
      (PDict [(''objects'', PDict [(''toolhead'', PNone),
                                   (''extruder'', PList [PStr ''temperature''])])]) =
     Inr (PDict [(''status'', PDict [(''toolhead'',
              PDict [(''position'', PList [PInt 0, PInt 0, PInt 0])])])]) \<and>
   ''toolhead'' \<notin> fst ` set [(''extruder'', Some [''temperature''])] \<and>
   map_of (host_subscription (snd (subscribe_objects ev_up
      [(''extruder'', Some [''temperature''])] PSentinel
      (st_init\<lparr>host_subscription := [(''toolhead'', None)]\<rparr>)))) ''toolhead'' = Some None \<and>
   trace (snd (subscribe_objects ev_up
      [(''extruder'', Some [''temperature''])] PSentinel
      (st_init\<lparr>host_subscription := [(''toolhead'', None)]\<rparr>))) =
     [Request ''objects/subscribe''
        (PDict [(''objects'', PDict [(''toolhead'', PNone),
                                     (''extruder'', PList [PStr ''temperature''])])])] \<and>
   fst (subscribe_objects ev_up
      [(''extruder'', Some [''temperature''])] PSentinel
      (st_init\<lparr>host_subscription := [(''toolhead'', None)]\<rparr>)) =
     Inr (PDict [(''toolhead'', PDict [(''position'', PList [PInt 0, PInt 0, PInt 0])])])"
proof -
  let ?st = "st_init\<lparr>host_subscription := [(''toolhead'', None)]\<rparr>"
  let ?objs = "[(''extruder'', Some [''temperature''])]"
  have m: "merge_objects (host_subscription ?st) ?objs =
             [(''toolhead'', None), (''extruder'', Some [''temperature''])]"
    by (simp add: merge_entry_def)
  have p: "objects_to_py [(''toolhead'', None), (''extruder'', Some [''temperature''])] =
             PDict [(''toolhead'', PNone), (''extruder'', PList [PStr ''temperature''])]"
    by (simp add: objects_to_py_def)
  have t: "trace ?st = []"
    by (simp add: st_init_def)
  have r: "klippy_request ev_up [] ''objects/subscribe''
      (PDict [(''objects'', PDict [(''toolhead'', PNone),
                                   (''extruder'', PList [PStr ''temperature''])])]) =
     Inr (PDict [(''status'', PDict [(''toolhead'',
              PDict [(''position'', PList [PInt 0, PInt 0, PInt 0])])])])"
    by (simp add: ev_up_def)
  show ?thesis
    using subscribe_objects_sends_registry [of ev_up ?objs PSentinel ?st] r
    unfolding m t by (simp add: p)
qed

text \<open>
  C10.  When the request of a \<open>subscribe_objects\<close> call fails, the registry in the
  state left behind is the merged one: so when the error is raised (sentinel default,
  or an error outside the server's error class) and so when it is replaced by the
  default.
\<close>

theorem subscribe_objects_no_rollback:
  assumes "klippy_request ev (trace st) ''objects/subscribe''
        (PDict [(''objects'', objects_to_py (merge_objects (host_subscription st) objects))]) =
        Inl e"
  shows "host_subscription (snd (subscribe_objects ev objects dflt st)) =
           merge_objects (host_subscription st) objects \<and>
         (dflt = PSentinel \<or> \<not> is_server_error e \<longrightarrow>
            fst (subscribe_objects ev objects dflt st) = Inl e) \<and>
         (dflt \<noteq> PSentinel \<and> is_server_error e \<longrightarrow>
            fst (subscribe_objects ev objects dflt st) = Inr (unwrap ''status'' dflt))"
  using assms
  by (auto simp: subscribe_objects_registry subscribe_objects_fst send_klippy_request_fst
        SUBSCRIPTION_ENDPOINT_def is_sentinel_iff simp del: merge_objects.simps)

theorem subscribe_objects_no_rollback_witness:
  "klippy_request ev_down (trace st_init) ''objects/subscribe''
      (PDict [(''objects'', objects_to_py (merge_objects (host_subscription st_init)
                               [(''extruder'', Some [''temperature''])]))]) =
     Inl (ServerError ''Klippy Disconnected'' 503) \<and>
   host_subscription st_init = [] \<and>
   fst (subscribe_objects ev_down [(''extruder'', Some [''temperature''])] PSentinel st_init) =
     Inl (ServerError ''Klippy Disconnected'' 503) \<and>
   host_subscription
     (snd (subscribe_objects ev_down [(''extruder'', Some [''temperature''])] PSentinel st_init)) =
     [(''extruder'', Some [''temperature''])] \<and>
   fst (subscribe_objects ev_down [(''extruder'', Some [''temperature''])] PNone st_init) =
     Inr PNone \<and>
   host_subscription
     (snd (subscribe_objects ev_down [(''extruder'', Some [''temperature''])] PNone st_init)) =
     [(''extruder'', Some [''temperature''])]"
proof -
  have h: "klippy_request ev_down (trace st_init) ''objects/subscribe''
      (PDict [(''objects'', objects_to_py (merge_objects (host_subscription st_init)
                               [(''extruder'', Some [''temperature''])]))]) =
     Inl (ServerError ''Klippy Disconnected'' 503)"
    by (simp add: ev_down_def)
  have m: "merge_objects (host_subscription st_init) [(''extruder'', Some [''temperature''])] =
             [(''extruder'', Some [''temperature''])]"
    by (simp add: merge_entry_def st_init_def)
  have i: "host_subscription st_init = []"
    by (simp add: st_init_def)
  show ?thesis
    using h i subscribe_objects_no_rollback [OF h, of PSentinel]
      subscribe_objects_no_rollback [OF h, of PNone]
    unfolding m by simp
qed

section \<open>Properties of job staging and the start of a print\<close>

text \<open>
  The test \<open>os.path.split(filename)[0].split(os.path.sep)[0] == ".cache"\<close> looks at the
  directory part of the name: it holds of every name that starts with \<open>.cache/\<close>, and
  a name whose first segment is \<open>.cache\<close> starts with \<open>.cache/\<close> unless it is \<open>.cache\<close>
  itself.
\<close>

lemma first_segment_prefix:
  assumes "first_segment f = ''.cache''" and "f \<noteq> ''.cache''"
  shows "\<exists>r. f = ''.cache/'' @ r"
proof -
  let ?P = "\<lambda>c. \<not> is_sep c"
  have td: "takeWhile ?P f @ dropWhile ?P f = f"
    by (rule takeWhile_dropWhile_id)
  have tk: "takeWhile ?P f = ''.cache''"
    using assms(1) unfolding first_segment_def .
  have f: "f = ''.cache'' @ dropWhile ?P f"
    using td unfolding tk by (rule sym)
  have ne: "dropWhile ?P f \<noteq> []"
  proof
    assume e: "dropWhile ?P f = []"
    have "f = ''.cache''" using f unfolding e by simp
    with assms(2) show False by blast
  qed
  then have "\<not> ?P (hd (dropWhile ?P f))"
    by (rule hd_dropWhile)
  then have s: "hd (dropWhile ?P f) = CHR ''/''"
    by (simp add: is_sep_def)
  obtain r where r: "dropWhile ?P f = CHR ''/'' # r"
    using ne s by (cases "dropWhile ?P f") auto
  have "f = ''.cache/'' @ r"
    using f unfolding r by simp
  then show ?thesis ..
qed

lemma rstrip_cache:
  "first_segment (rev (dropWhile is_sep (D @ ''/ehcac.''))) = ''.cache''"
proof (cases "\<forall>x\<in>set D. is_sep x")
  case True
  then have "dropWhile is_sep (D @ ''/ehcac.'') = dropWhile is_sep ''/ehcac.''"
    by (intro dropWhile_append2) blast
  also have "\<dots> = ''ehcac.''"
    by (simp add: is_sep_def)
  finally show ?thesis
    by (simp add: first_segment_def is_sep_def)
next
  case False
  then obtain x where "x \<in> set D" and "\<not> is_sep x" by blast
  then have "dropWhile is_sep (D @ ''/ehcac.'') = dropWhile is_sep D @ ''/ehcac.''"
    by (rule dropWhile_append1)
  then show ?thesis
    by (simp add: first_segment_def is_sep_def)
qed

lemma in_cache_prefix: "in_cache (''.cache/'' @ r)"
proof -
  let ?P = "\<lambda>c. \<not> is_sep c"
  let ?D = "dropWhile ?P (rev r)"
  have r: "rev (''.cache/'' @ r) = rev r @ ''/ehcac.''"
    by simp
  have "dropWhile ?P (rev r @ ''/ehcac.'') = ?D @ ''/ehcac.''"
  proof (cases "\<forall>x\<in>set (rev r). ?P x")
    case True
    then have "dropWhile ?P (rev r @ ''/ehcac.'') = dropWhile ?P ''/ehcac.''"
      by (intro dropWhile_append2) blast
    moreover have "dropWhile ?P ''/ehcac.'' = ''/ehcac.''"
      by (simp add: is_sep_def)
    moreover have "?D = []"
      using True by (simp add: dropWhile_eq_Nil_conv)
    ultimately show ?thesis by simp
  next
    case False
    then obtain x where "x \<in> set (rev r)" and "\<not> ?P x" by blast
    then show ?thesis
      by (rule dropWhile_append1)
  qed
  then have d: "dropWhile ?P (rev (''.cache/'' @ r)) = ?D @ ''/ehcac.''"
    unfolding r .
  have hd: "rev (?D @ ''/ehcac.'') = ''.cache/'' @ rev ?D"
    by simp
  have ne: "''.cache/'' @ rev ?D \<noteq> []"
    by simp
  have na: "\<not> list_all is_sep (''.cache/'' @ rev ?D)"
    by (simp add: is_sep_def)
  have rr: "rev (''.cache/'' @ rev ?D) = ?D @ ''/ehcac.''"
    by simp
  have "fst (path_split (''.cache/'' @ r)) = rev (dropWhile is_sep (?D @ ''/ehcac.''))"
    unfolding path_split_def Let_def d hd using ne na rr by (simp only: fst_conv if_True simp_thms)
  then show ?thesis
    unfolding in_cache_def by (simp only: rstrip_cache)
qed

lemma print_file_snd:
  "snd (print_file ev fname st) =
     st\<lparr>trace := trace st @ [WaitStarted, Request ''gcode/script''
       (PDict [(''script'', PStr (''SDCARD_PRINT_FILE FILENAME='' @ [CHR 0x22] @ fname @ [CHR 0x22]))])]\<rparr>"
  by (simp add: print_file_def run_gcode_def send_klippy_request_def request_def wait_started_def
        log_action_def GCODE_ENDPOINT_def split: sum.splits)

lemma print_file_fst:
  "fst (print_file ev fname st) =
     klippy_request ev (trace st @ [WaitStarted]) ''gcode/script''
       (PDict [(''script'', PStr (''SDCARD_PRINT_FILE FILENAME='' @ [CHR 0x22] @ fname @ [CHR 0x22]))])"
  by (simp add: print_file_def run_gcode_def send_klippy_request_def request_def wait_started_def
        log_action_def GCODE_ENDPOINT_def split: sum.splits)

lemma path_values:
  "path_join ''/home/mks'' ''gcode_files'' = ''/home/mks/gcode_files''"
  "path_join ''/home/mks/gcode_files'' ''.cache'' = ''/home/mks/gcode_files/.cache''"
  "basename ''.cache'' = ''.cache''"
  "path_join ''.cache'' ''.cache'' = ''.cache/.cache''"
  "path_join ''/home/mks/gcode_files'' ''.cache/.cache'' = ''/home/mks/gcode_files/.cache/.cache''"
  "fst (path_split ''/home/mks/gcode_files/.cache/a.gcode'') = ''/home/mks/gcode_files/.cache''"
  "ancestors ''/home/mks/gcode_files/.cache'' =
     [''/home'', ''/home/mks'', ''/home/mks/gcode_files'']"
  by (simp_all add: path_join_def basename_def path_split_def ancestors_def is_sep_def upt_rec)

text \<open>
  C6, as stated, fails for the reference \<open>.cache\<close>: its first (and only) path segment
  names the cache directory, its directory part is empty, and \<open>start_print\<close> runs the
  staging flow, which deletes the cache directory with the file staged in it.
\<close>

theorem start_print_cache_itself_counterexample:
  "normalize_filename ''.cache'' = Inr ''.cache'' \<and>
   first_segment ''.cache'' = ''.cache'' \<and>
   nodes st_staged ''/home/mks/gcode_files/.cache/a.gcode'' = Some (File ''G28'') \<and>
   fst (start_print ev_up ''.cache'' st_staged) = Inl IsADirectoryError \<and>
   trace (snd (start_print ev_up ''.cache'' st_staged)) =
     [Rmtree ''/home/mks/gcode_files/.cache'',
      Makedirs ''/home/mks/gcode_files/.cache'',
      CopyFile ''/home/mks/gcode_files/.cache'' ''/home/mks/gcode_files/.cache/.cache''] \<and>
   nodes (snd (start_print ev_up ''.cache'' st_staged)) ''/home/mks/gcode_files/.cache/a.gcode'' =
     None"
proof -
  have n: "normalize_filename ''.cache'' = Inr ''.cache''"
    by (simp add: normalize_filename_def escape_quotes_def)
  have c: "\<not> in_cache ''.cache''"
    by (simp add: in_cache_def path_split_def first_segment_def is_sep_def)
  have s: "fst (stage_job ev_up ''.cache'' st_staged) = Inl IsADirectoryError \<and>
      trace (snd (stage_job ev_up ''.cache'' st_staged)) =
        [Rmtree ''/home/mks/gcode_files/.cache'',
         Makedirs ''/home/mks/gcode_files/.cache'',
         CopyFile ''/home/mks/gcode_files/.cache'' ''/home/mks/gcode_files/.cache/.cache''] \<and>
      nodes (snd (stage_job ev_up ''.cache'' st_staged)) ''/home/mks/gcode_files/.cache/a.gcode'' =
        None"
    apply (simp add: stage_job_def ev_up_def path_values Let_def)
    apply (simp add: bind_def os_path_exists_def st_staged_def st_init_def shutil_rmtree_def
        log_action_def os_makedirs_def path_values copy_file_to_cache_def free_space_at_def
        os_path_getsize_def shutil_copy_def)
    done
  have "start_print ev_up ''.cache'' st_staged =
          bind (stage_job ev_up ''.cache'') (print_file ev_up) st_staged"
    using n c by (simp add: start_print_def)
  then have r: "start_print ev_up ''.cache'' st_staged =
                  (Inl IsADirectoryError, snd (stage_job ev_up ''.cache'' st_staged))"
    using s by (cases "stage_job ev_up ''.cache'' st_staged") (simp add: bind_def)
  show ?thesis
    unfolding r using s by (simp add: n first_segment_def is_sep_def st_staged_def st_init_def)
qed

text \<open>
  C6, amended.  For every job reference whose normalised form has \<open>.cache\<close> as first
  path segment and is not the bare name \<open>.cache\<close> (so it starts with \<open>.cache/\<close>),
  \<open>start_print\<close> skips the staging flow: the state changes only by the wait for Klippy
  and the one \<open>gcode/script\<close> request, so no directory is deleted or created, no file
  is copied and no event is announced; the command carries the normalised reference
  as it is; and the result is Klippy's answer to that request.
\<close>

theorem start_print_in_cache:
  assumes "normalize_filename filename = Inr fname"
    and "first_segment fname = ''.cache''" and "fname \<noteq> ''.cache''"
  shows "snd (start_print ev filename st) =
           st\<lparr>trace := trace st @ [WaitStarted, Request ''gcode/script''
             (PDict [(''script'',
                PStr (''SDCARD_PRINT_FILE FILENAME='' @ [CHR 0x22] @ fname @ [CHR 0x22]))])]\<rparr> \<and>
         fst (start_print ev filename st) =
           klippy_request ev (trace st @ [WaitStarted]) ''gcode/script''
             (PDict [(''script'',
                PStr (''SDCARD_PRINT_FILE FILENAME='' @ [CHR 0x22] @ fname @ [CHR 0x22]))])"
proof -
  obtain r where "fname = ''.cache/'' @ r"
    using first_segment_prefix [OF assms(2,3)] ..
  then have "in_cache fname"
    by (simp only: in_cache_prefix)
  then have "start_print ev filename st = print_file ev fname st"
    using assms(1) by (simp add: start_print_def)
  then show ?thesis
    by (simp only: print_file_snd print_file_fst simp_thms)
qed

theorem start_print_in_cache_witness:
  "normalize_filename ''/.cache/a.gcode'' = Inr ''.cache/a.gcode'' \<and>
   first_segment ''.cache/a.gcode'' = ''.cache'' \<and>
   ''.cache/a.gcode'' \<noteq> ''.cache'' \<and>
   fst (gcode_start_print ev_up ''/.cache/a.gcode'' st_staged) = Inr (PStr ''ok'') \<and>
   nodes (snd (gcode_start_print ev_up ''/.cache/a.gcode'' st_staged)) = nodes st_staged \<and>
   trace (snd (gcode_start_print ev_up ''/.cache/a.gcode'' st_staged)) =
     [WaitStarted, Request ''gcode/script''
        (PDict [(''script'',
           PStr (''SDCARD_PRINT_FILE FILENAME='' @ [CHR 0x22] @ ''.cache/a.gcode'' @ [CHR 0x22]))])]"
proof -
  have h1: "normalize_filename ''/.cache/a.gcode'' = Inr ''.cache/a.gcode''"
    by (simp add: normalize_filename_def escape_quotes_def)
  have h2: "first_segment ''.cache/a.gcode'' = ''.cache''"
    by (simp add: first_segment_def is_sep_def)
  have h3: "''.cache/a.gcode'' \<noteq> ''.cache''"
    by simp
  have t: "trace st_staged = []"
    by (simp add: st_staged_def st_init_def)
  show ?thesis
    using h1 h2 h3 start_print_in_cache [OF h1 h2 h3, of ev_up st_staged]
    by (simp add: gcode_start_print_def t ev_up_def)
qed

text \<open>
  C9.  \<open>start_print\<close> called with the empty string raises \<open>IndexError\<close> and leaves the
  state untouched (no staging, no deletion, no request); the normalisation raises for
  the empty string only, and returns a name for every other reference.
\<close>

theorem start_print_empty_filename:
  "start_print ev [] st = (Inl IndexError, st) \<and>
   (normalize_filename filename = Inl IndexError) = (filename = []) \<and>
   (\<exists>fname. normalize_filename filename = Inr fname) = (filename \<noteq> [])"
  by (cases filename) (simp_all add: start_print_def normalize_filename_def)

theorem start_print_empty_filename_witness:
  "gcode_start_print ev_up [] st_staged = (Inl IndexError, st_staged) \<and>
   normalize_filename ''a.gcode'' = Inr ''a.gcode''"
  using start_print_empty_filename [of ev_up st_staged "''a.gcode''"]
  by (simp add: gcode_start_print_def normalize_filename_def escape_quotes_def)

text \<open>
  What \<open>copy_file_to_cache\<close> does with a regular source file: the guard compares with
  the free space of \<open>/\<close>, and the copy succeeds when the file fits on the file system
  of the target.
\<close>

lemma getsize_file:
  "nodes st p = Some (File bytes) \<Longrightarrow> os_path_getsize ev p st = Inr (length bytes)"
  by (simp add: os_path_getsize_def)

lemma copy_file_to_cache_guard:
  assumes "nodes st origin = Some (File bytes)"
  shows "(free_space_at ev ''/'' \<le> length bytes \<longrightarrow>
            copy_file_to_cache ev origin target st =
              (Inl (ServerError ''Insufficient disk space, unable to read the file.'' 500),
               st\<lparr>trace := trace st @ [SendEvent ''server:gcode_response''
                    [PStr ''!! Insufficient disk space, unable to read the file.'']]\<rparr>)) \<and>
         (length bytes < free_space_at ev ''/'' \<longrightarrow>
            copy_file_to_cache ev origin target st = shutil_copy ev origin target st)"
  using assms
  by (simp add: copy_file_to_cache_def getsize_file send_event_def log_action_def Let_def)

lemma shutil_copy_fits:
  assumes "nodes st origin = Some (File bytes)" and "target \<noteq> origin"
    and "nodes st target = None" and "fst (path_split target) \<noteq> []"
    and "nodes st (fst (path_split target)) = Some Dir"
  shows "(length bytes \<le> free_space_at ev (fst (path_split target)) \<longrightarrow>
            shutil_copy ev origin target st =
              (Inr (), st\<lparr>trace := trace st @ [CopyFile origin target],
                          nodes := (nodes st)(target \<mapsto> File bytes)\<rparr>)) \<and>
         (free_space_at ev (fst (path_split target)) < length bytes \<longrightarrow>
            shutil_copy ev origin target st =
              (Inl NoSpaceError,
               st\<lparr>trace := trace st @ [CopyFile origin target],
                  nodes := (nodes st)(target \<mapsto>
                     File (take (free_space_at ev (fst (path_split target))) bytes))\<rparr>))"
  using assms by (auto simp: shutil_copy_def log_action_def Let_def)

lemma copy_file_to_cache_same_file_system:
  assumes "nodes st origin = Some (File bytes)" and "target \<noteq> origin"
    and "nodes st target = None" and "fst (path_split target) \<noteq> []"
    and "nodes st (fst (path_split target)) = Some Dir"
    and "free_space_at ev (fst (path_split target)) = free_space_at ev ''/''"
    and "length bytes < free_space_at ev ''/''"
  shows "copy_file_to_cache ev origin target st =
           (Inr (), st\<lparr>trace := trace st @ [CopyFile origin target],
                       nodes := (nodes st)(target \<mapsto> File bytes)\<rparr>)"
proof -
  have "copy_file_to_cache ev origin target st = shutil_copy ev origin target st"
    using copy_file_to_cache_guard [OF assms(1), of ev target] assms(7) by simp
  moreover have "length bytes \<le> free_space_at ev (fst (path_split target))"
    using assms(6,7) by simp
  ultimately show ?thesis
    using shutil_copy_fits [OF assms(1-5), of ev] by simp
qed

lemma path_values2:
  "fst (path_split ''/home/mks/gcode_files/.cache/big.gcode'') = ''/home/mks/gcode_files/.cache''"
  by (simp add: path_split_def is_sep_def)

text \<open>
  C5.  The claim holds of the code in two cases proved above: when the source is not
  smaller than the free space of \<open>/\<close> (message, error, no copy), and when it is smaller
  and the target lies on the file system of \<open>/\<close> (the bytes arrive).  It fails when the
  target lies on another file system, since \<open>os.statvfs("/")\<close> is asked whatever the
  target is.  Here the job files have their own file system with 4096 free bytes,
  \<open>/\<close> has 409600, and the job has 5000 bytes: the file does not fit where it is
  staged, yet no message is announced and no insufficient-space error raised; the
  copy is attempted, fails with \<open>errno\<close> 28 and leaves the first 4096 bytes in the
  cache directory.
\<close>

theorem copy_file_to_cache_partial_copy:
  "free_space_at ev_split ''/'' = 409600 \<and>
   free_space_at ev_split ''/home/mks/gcode_files/.cache'' = 4096 \<and>
   os_path_getsize ev_split ''/home/mks/gcode_files/big.gcode'' st_big = Inr 5000 \<and>
   nodes st_big ''/home/mks/gcode_files/.cache/big.gcode'' = None \<and>
   fst (copy_file_to_cache ev_split ''/home/mks/gcode_files/big.gcode''
          ''/home/mks/gcode_files/.cache/big.gcode'' st_big) = Inl NoSpaceError \<and>
   trace (snd (copy_file_to_cache ev_split ''/home/mks/gcode_files/big.gcode''
          ''/home/mks/gcode_files/.cache/big.gcode'' st_big)) =
     [CopyFile ''/home/mks/gcode_files/big.gcode'' ''/home/mks/gcode_files/.cache/big.gcode''] \<and>
   nodes (snd (copy_file_to_cache ev_split ''/home/mks/gcode_files/big.gcode''
          ''/home/mks/gcode_files/.cache/big.gcode'' st_big))
      ''/home/mks/gcode_files/.cache/big.gcode'' = Some (File (replicate 4096 (CHR ''G'')))"
proof -
  have f: "free_space_at ev_split ''/'' = 409600"
    "free_space_at ev_split ''/home/mks/gcode_files/.cache'' = 4096"
    by (simp_all add: free_space_at_def ev_split_def)
  have n: "nodes st_big ''/home/mks/gcode_files/big.gcode'' = Some (File (replicate 5000 (CHR ''G'')))"
    "nodes st_big ''/home/mks/gcode_files/.cache/big.gcode'' = None"
    "nodes st_big ''/home/mks/gcode_files/.cache'' = Some Dir"
    "trace st_big = []"
    by (simp_all add: st_big_def)
  have g: "os_path_getsize ev_split ''/home/mks/gcode_files/big.gcode'' st_big = Inr 5000"
    by (simp add: os_path_getsize_def n)
  have c: "copy_file_to_cache ev_split ''/home/mks/gcode_files/big.gcode''
          ''/home/mks/gcode_files/.cache/big.gcode'' st_big =
        (Inl NoSpaceError,
         st_big\<lparr>trace := [CopyFile ''/home/mks/gcode_files/big.gcode''
                              ''/home/mks/gcode_files/.cache/big.gcode''],
            nodes := (nodes st_big)(''/home/mks/gcode_files/.cache/big.gcode'' \<mapsto>
                       File (replicate 4096 (CHR ''G'')))\<rparr>)"
    by (simp add: copy_file_to_cache_def g f shutil_copy_def n path_values2 log_action_def Let_def)
  show ?thesis
    unfolding c by (simp add: f g n)
qed

end
